theory Spec2Isabelle
  imports Main "HOL-Library.Multiset" "HOL-Library.Product_Lexorder"
begin

section \<open>JavaScript values read by the handlers\<close>

text \<open>
  A field of the JSON request body (\<open>req.body || {}\<close>, destructured) is absent
  (\<open>undefined\<close>), \<open>null\<close> or a string. Strings are lists of code units below 256.
  Numbers, booleans, arrays and objects as field values are outside this model.
\<close>

datatype jsval = JUndefined | JNull | JStr string

text \<open>JavaScript truthiness, as tested by \<open>!title\<close>, \<open>!user_email\<close>, ...\<close>

fun truthy :: "jsval \<Rightarrow> bool" where
  "truthy JUndefined = False"
| "truthy JNull = False"
| "truthy (JStr s) = (s \<noteq> [])"

text \<open>The string a value is converted to when a regular expression is tested on it.\<close>

fun toString :: "jsval \<Rightarrow> string" where
  "toString JUndefined = ''undefined''"
| "toString JNull = ''null''"
| "toString (JStr s) = s"

text \<open>
  The value of \<open>Number(req.params.id)\<close>: not-a-number or an integer. \<open>!feedbackId\<close>
  holds for \<open>NaN\<close> and for zero.
\<close>

datatype jsnum = NaN | Num int

fun truthy_num :: "jsnum \<Rightarrow> bool" where
  "truthy_num NaN = False"
| "truthy_num (Num n) = (n \<noteq> 0)"

section \<open>isValidEmail\<close>

text \<open>The class \<open>\s\<close> restricted to code units below 256.\<close>

definition is_space :: "char \<Rightarrow> bool" where
  "is_space c = (c \<in> {CHR 0x09, CHR 0x0A, CHR 0x0B, CHR 0x0C, CHR 0x0D, CHR 0x20, CHR 0xA0})"

text \<open>The class \<open>[^\s@]\<close>.\<close>

definition not_space_at :: "char \<Rightarrow> bool" where
  "not_space_at c = (\<not> is_space c \<and> c \<noteq> CHR ''@'')"

text \<open>
  The declarative reading of \<open>/^[^\s@]+@[^\s@]+\.[^\s@]+$/\<close>: the whole string is
  three non-empty runs of the class, separated by an at sign and a dot.
\<close>

definition email_regex :: "string \<Rightarrow> bool" where
  "email_regex s = (\<exists>a b c. s = a @ ''@'' @ b @ ''.'' @ c \<and> a \<noteq> [] \<and> b \<noteq> [] \<and> c \<noteq> []
      \<and> list_all not_space_at a \<and> list_all not_space_at b \<and> list_all not_space_at c)"

text \<open>
  The matcher that computes it: the first run is the longest prefix in the class (the at
  sign is not in the class), the rest must be in the class throughout and hold a dot
  that is neither its first nor its last character.
\<close>

definition matches_email :: "string \<Rightarrow> bool" where
  "matches_email s =
     (takeWhile not_space_at s \<noteq> [] \<and>
      (case dropWhile not_space_at s of
         [] \<Rightarrow> False
       | x # d \<Rightarrow> x = CHR ''@'' \<and> list_all not_space_at d \<and> CHR ''.'' \<in> set (butlast (tl d))))"

definition isValidEmail :: "jsval \<Rightarrow> bool" where
  "isValidEmail email = matches_email (toString email)"

section \<open>The persistence schema\<close>

text \<open>
  Timestamps (\<open>CURRENT_TIMESTAMP\<close>, compared as text in SQLite, which orders them by
  time) are natural numbers of seconds. The \<open>status\<close> column has no \<open>NOT NULL\<close>.
\<close>

record feedback_row =
  f_id :: int
  f_title :: string
  f_description :: string
  f_user_email :: string
  f_created_at :: nat
  f_status :: "string option"

record upvote_row =
  u_id :: int
  u_feedback_id :: int
  u_user_email :: string

record comment_row =
  c_id :: int
  c_feedback_id :: int
  c_user_email :: string
  c_comment_text :: string
  c_created_at :: nat

text \<open>The columns that \<open>PUT /api/feedback/:id\<close> may assign.\<close>

datatype column = Title | Description | Status

datatype order_clause = Created_desc | Upvotes_desc_created_desc

text \<open>The statements the handlers send to the database, in the order of the source.\<close>

datatype stmt =
    Select_feedback_list order_clause
  | Insert_feedback jsval jsval jsval
  | Select_feedback_by_id int
  | Update_feedback "(column \<times> jsval) list" int
  | Delete_upvotes int
  | Delete_comments int
  | Delete_feedback int
  | Insert_upvote int jsval
  | Select_upvote_count int
  | Insert_comment int jsval jsval
  | Select_comment_by_id int
  | Select_comments int

text \<open>
  The database: the three tables in rowid order, the \<open>AUTOINCREMENT\<close> counters of
  \<open>sqlite_sequence\<close>, and the statements executed so far.
\<close>

record db =
  feedback :: "feedback_row list"
  upvotes :: "upvote_row list"
  comments :: "comment_row list"
  feedback_seq :: int
  upvotes_seq :: int
  comments_seq :: int
  executed :: "stmt list"

definition empty_db :: db where
  "empty_db = \<lparr>feedback = [], upvotes = [], comments = [], feedback_seq = 0, upvotes_seq = 0,
     comments_seq = 0, executed = []\<rparr>"

text \<open>
  The errors a statement of the handlers can raise on this schema. A failure of the storage
  itself (the other source of the \<open>err\<close> branches) is outside the model.
\<close>

datatype sql_error = UNIQUE_constraint_failed | NOT_NULL_constraint_failed

text \<open>\<open>/UNIQUE constraint failed/.test(err.message)\<close>\<close>

fun is_unique_violation :: "sql_error \<Rightarrow> bool" where
  "is_unique_violation UNIQUE_constraint_failed = True"
| "is_unique_violation NOT_NULL_constraint_failed = False"

text \<open>A bound parameter in a \<open>TEXT\<close> column: \<open>None\<close> is SQL \<open>NULL\<close>.\<close>

fun bind_text :: "jsval \<Rightarrow> string option" where
  "bind_text JUndefined = None"
| "bind_text JNull = None"
| "bind_text (JStr s) = Some s"

text \<open>
  \<open>INTEGER PRIMARY KEY AUTOINCREMENT\<close>: one more than the largest rowid that the table
  holds or has ever held.
\<close>

definition next_id :: "int list \<Rightarrow> int \<Rightarrow> int" where
  "next_id ids seq = fold max ids seq + 1"

definition logged :: "stmt \<Rightarrow> db \<Rightarrow> db" where
  "logged q s = s\<lparr>executed := executed s @ [q]\<rparr>"

section \<open>The statements\<close>

definition insert_feedback :: "jsval \<Rightarrow> jsval \<Rightarrow> jsval \<Rightarrow> nat \<Rightarrow> db \<Rightarrow> (sql_error + int) \<times> db" where
  "insert_feedback title description user_email now s =
     (let s1 = logged (Insert_feedback title description user_email) s in
      case (bind_text title, bind_text description, bind_text user_email) of
        (Some t, Some d, Some e) \<Rightarrow>
          (let i = next_id (map f_id (feedback s)) (feedback_seq s) in
           (Inr i, s1\<lparr>feedback := feedback s @
               [\<lparr>f_id = i, f_title = t, f_description = d, f_user_email = e,
                 f_created_at = now, f_status = Some ''Open''\<rparr>],
             feedback_seq := i\<rparr>))
      | _ \<Rightarrow> (Inl NOT_NULL_constraint_failed, s1))"

definition select_feedback_by_id :: "int \<Rightarrow> db \<Rightarrow> feedback_row option \<times> db" where
  "select_feedback_by_id i s =
     (find (\<lambda>r. f_id r = i) (feedback s), logged (Select_feedback_by_id i) s)"

fun assign :: "column \<times> jsval \<Rightarrow> feedback_row \<Rightarrow> feedback_row" where
  "assign (Title, v) r = r\<lparr>f_title := (case bind_text v of Some t \<Rightarrow> t | None \<Rightarrow> f_title r)\<rparr>"
| "assign (Description, v) r =
     r\<lparr>f_description := (case bind_text v of Some t \<Rightarrow> t | None \<Rightarrow> f_description r)\<rparr>"
| "assign (Status, v) r = r\<lparr>f_status := bind_text v\<rparr>"

text \<open>An assignment of \<open>NULL\<close> to a \<open>NOT NULL\<close> column.\<close>

fun violates_not_null :: "column \<times> jsval \<Rightarrow> bool" where
  "violates_not_null (Title, v) = (bind_text v = None)"
| "violates_not_null (Description, v) = (bind_text v = None)"
| "violates_not_null (Status, v) = False"

text \<open>
  \<open>UPDATE feedback SET ... WHERE id = ?\<close>: the constraint is checked on the rows that
  match only; a failing statement changes nothing. The result is \<open>this.changes\<close>.
\<close>

definition update_feedback :: "(column \<times> jsval) list \<Rightarrow> int \<Rightarrow> db \<Rightarrow> (sql_error + nat) \<times> db" where
  "update_feedback sets i s =
     (let s1 = logged (Update_feedback sets i) s;
          hits = filter (\<lambda>r. f_id r = i) (feedback s) in
      if hits \<noteq> [] \<and> list_ex violates_not_null sets then (Inl NOT_NULL_constraint_failed, s1)
      else (Inr (length hits),
            s1\<lparr>feedback := map (\<lambda>r. if f_id r = i then fold assign sets r else r) (feedback s)\<rparr>))"

definition delete_upvotes :: "int \<Rightarrow> db \<Rightarrow> db" where
  "delete_upvotes i s =
     (logged (Delete_upvotes i) s)\<lparr>upvotes := filter (\<lambda>u. u_feedback_id u \<noteq> i) (upvotes s)\<rparr>"

definition delete_comments :: "int \<Rightarrow> db \<Rightarrow> db" where
  "delete_comments i s =
     (logged (Delete_comments i) s)\<lparr>comments := filter (\<lambda>c. c_feedback_id c \<noteq> i) (comments s)\<rparr>"

text \<open>The result is \<open>this.changes\<close>, the number of rows deleted.\<close>

definition delete_feedback :: "int \<Rightarrow> db \<Rightarrow> nat \<times> db" where
  "delete_feedback i s =
     (length (filter (\<lambda>r. f_id r = i) (feedback s)),
      (logged (Delete_feedback i) s)\<lparr>feedback := filter (\<lambda>r. f_id r \<noteq> i) (feedback s)\<rparr>)"

text \<open>\<open>UNIQUE (feedback_id, user_email)\<close> is checked by the insert itself.\<close>

definition insert_upvote :: "int \<Rightarrow> jsval \<Rightarrow> db \<Rightarrow> (sql_error + int) \<times> db" where
  "insert_upvote i user_email s =
     (let s1 = logged (Insert_upvote i user_email) s in
      case bind_text user_email of
        None \<Rightarrow> (Inl NOT_NULL_constraint_failed, s1)
      | Some e \<Rightarrow>
          if list_ex (\<lambda>u. u_feedback_id u = i \<and> u_user_email u = e) (upvotes s)
          then (Inl UNIQUE_constraint_failed, s1)
          else (let k = next_id (map u_id (upvotes s)) (upvotes_seq s) in
                (Inr k, s1\<lparr>upvotes := upvotes s @ [\<lparr>u_id = k, u_feedback_id = i, u_user_email = e\<rparr>],
                          upvotes_seq := k\<rparr>)))"

definition upvote_count_of :: "db \<Rightarrow> int \<Rightarrow> nat" where
  "upvote_count_of s i = length (filter (\<lambda>u. u_feedback_id u = i) (upvotes s))"

definition comment_count_of :: "db \<Rightarrow> int \<Rightarrow> nat" where
  "comment_count_of s i = length (filter (\<lambda>c. c_feedback_id c = i) (comments s))"

definition select_upvote_count :: "int \<Rightarrow> db \<Rightarrow> nat \<times> db" where
  "select_upvote_count i s = (upvote_count_of s i, logged (Select_upvote_count i) s)"

definition insert_comment :: "int \<Rightarrow> jsval \<Rightarrow> jsval \<Rightarrow> nat \<Rightarrow> db \<Rightarrow> (sql_error + int) \<times> db" where
  "insert_comment i user_email comment_text now s =
     (let s1 = logged (Insert_comment i user_email comment_text) s in
      case (bind_text user_email, bind_text comment_text) of
        (Some e, Some t) \<Rightarrow>
          (let k = next_id (map c_id (comments s)) (comments_seq s) in
           (Inr k, s1\<lparr>comments := comments s @
               [\<lparr>c_id = k, c_feedback_id = i, c_user_email = e, c_comment_text = t,
                 c_created_at = now\<rparr>],
             comments_seq := k\<rparr>))
      | _ \<Rightarrow> (Inl NOT_NULL_constraint_failed, s1))"

definition select_comment_by_id :: "int \<Rightarrow> db \<Rightarrow> comment_row option \<times> db" where
  "select_comment_by_id k s =
     (find (\<lambda>c. c_id c = k) (comments s), logged (Select_comment_by_id k) s)"

text \<open>\<open>... WHERE feedback_id = ? ORDER BY created_at ASC\<close>\<close>

definition select_comments :: "int \<Rightarrow> db \<Rightarrow> comment_row list \<times> db" where
  "select_comments i s =
     (sort_key c_created_at (filter (\<lambda>c. c_feedback_id c = i) (comments s)),
      logged (Select_comments i) s)"

text \<open>A row of the listing: the feedback row with its two counts.\<close>

record feedback_view =
  item :: feedback_row
  upvote_count :: nat
  comment_count :: nat

definition joined :: "db \<Rightarrow> feedback_row \<Rightarrow> feedback_view" where
  "joined s f = \<lparr>item = f, upvote_count = upvote_count_of s (f_id f),
     comment_count = comment_count_of s (f_id f)\<rparr>"

text \<open>
  The sort keys: ascending in the key is descending in the column. SQL leaves the order of
  rows with equal keys open; here they stay in rowid order.
\<close>

definition created_desc_key :: "feedback_view \<Rightarrow> int" where
  "created_desc_key v = - int (f_created_at (item v))"

definition upvotes_desc_key :: "feedback_view \<Rightarrow> int \<times> int" where
  "upvotes_desc_key v = (- int (upvote_count v), - int (f_created_at (item v)))"

definition select_feedback_list :: "order_clause \<Rightarrow> db \<Rightarrow> feedback_view list \<times> db" where
  "select_feedback_list oc s =
     (let rows = map (joined s) (feedback s) in
      (case oc of
         Created_desc \<Rightarrow> sort_key created_desc_key rows
       | Upvotes_desc_created_desc \<Rightarrow> sort_key upvotes_desc_key rows,
       logged (Select_feedback_list oc) s))"

section \<open>The request handlers\<close>

datatype body =
    Error string
  | Feedback_list "feedback_view list"
  | Created_feedback "feedback_row option" nat nat
  | Updated_feedback feedback_row
  | Ok_true
  | Upvoted string nat
  | Created_comment "comment_row option"
  | Comment_list "comment_row list"

type_synonym response = "nat \<times> body"

text \<open>
  \<open>toLowerCase\<close> on code units below 256: the letters \<open>A\<close> to \<open>Z\<close> and the
  upper-case letters of Latin-1 (\<open>0xC0\<close> to \<open>0xDE\<close> without \<open>0xD7\<close>) move up by 32,
  which sets the bit of weight 32.
\<close>

definition is_upper :: "char \<Rightarrow> bool" where
  "is_upper c = (65 \<le> (of_char c :: nat) \<and> (of_char c :: nat) \<le> 90 \<or>
     192 \<le> (of_char c :: nat) \<and> (of_char c :: nat) \<le> 222 \<and> (of_char c :: nat) \<noteq> 215)"

fun toLowerCase_char :: "char \<Rightarrow> char" where
  "toLowerCase_char (Char b0 b1 b2 b3 b4 b5 b6 b7) =
     (if is_upper (Char b0 b1 b2 b3 b4 b5 b6 b7) then Char b0 b1 b2 b3 b4 True b6 b7
      else Char b0 b1 b2 b3 b4 b5 b6 b7)"

definition toLowerCase :: "string \<Rightarrow> string" where
  "toLowerCase s = map toLowerCase_char s"

text \<open>
  \<open>GET /api/feedback\<close>. The argument is \<open>req.query.sortBy\<close>, absent or a string; the
  empty string is falsy.
\<close>

definition GET_feedback :: "string option \<Rightarrow> db \<Rightarrow> response \<times> db" where
  "GET_feedback query_sortBy s =
     (let sortBy = toLowerCase (case query_sortBy of
                                  None \<Rightarrow> ''upvotes''
                                | Some q \<Rightarrow> if q = [] then ''upvotes'' else q);
          orderClause = (if sortBy = ''newest'' then Created_desc else Upvotes_desc_created_desc)
      in case select_feedback_list orderClause s of
           (rows, s1) \<Rightarrow> ((200, Feedback_list rows), s1))"

text \<open>\<open>POST /api/feedback\<close>; \<open>now\<close> is the clock of the database at the insert.\<close>

definition POST_feedback :: "jsval \<Rightarrow> jsval \<Rightarrow> jsval \<Rightarrow> nat \<Rightarrow> db \<Rightarrow> response \<times> db" where
  "POST_feedback title description user_email now s =
     (if \<not> truthy title \<or> \<not> truthy description \<or> \<not> truthy user_email
      then ((400, Error ''title, description, and user_email are required''), s)
      else if \<not> isValidEmail user_email then ((400, Error ''Invalid email format''), s)
      else (case insert_feedback title description user_email now s of
              (Inl err, s1) \<Rightarrow> ((500, Error ''Failed to create feedback''), s1)
            | (Inr lastID, s1) \<Rightarrow>
                (case select_feedback_by_id lastID s1 of
                   (row, s2) \<Rightarrow> ((201, Created_feedback row 0 0), s2))))"

text \<open>\<open>process.env.ADMIN_TOKEN || 'changeme'\<close>\<close>

definition ADMIN_TOKEN :: "string option \<Rightarrow> string" where
  "ADMIN_TOKEN env = (case env of None \<Rightarrow> ''changeme'' | Some t \<Rightarrow> if t = [] then ''changeme'' else t)"

text \<open>The middleware: the header \<open>x-admin-token\<close> is absent or a string.\<close>

definition requireAdmin :: "string \<Rightarrow> string option \<Rightarrow> (db \<Rightarrow> response \<times> db) \<Rightarrow> db \<Rightarrow> response \<times> db" where
  "requireAdmin secret token next s =
     (if (case token of None \<Rightarrow> True | Some t \<Rightarrow> t = [] \<or> t \<noteq> secret)
      then ((401, Error ''Unauthorized''), s)
      else next s)"

definition ALLOWED_STATUSES :: "string set" where
  "ALLOWED_STATUSES = {''Open'', ''Planned'', ''In Progress'', ''Completed''}"

fun ALLOWED_STATUSES_has :: "jsval \<Rightarrow> bool" where
  "ALLOWED_STATUSES_has (JStr v) = (v \<in> ALLOWED_STATUSES)"
| "ALLOWED_STATUSES_has _ = False"

text \<open>The \<open>fields\<close> and \<open>values\<close> arrays of the update, paired.\<close>

definition fields_of :: "jsval \<Rightarrow> jsval \<Rightarrow> jsval \<Rightarrow> (column \<times> jsval) list" where
  "fields_of title description status =
     (if title \<noteq> JUndefined then [(Title, title)] else []) @
     (if description \<noteq> JUndefined then [(Description, description)] else []) @
     (if status \<noteq> JUndefined then [(Status, status)] else [])"

text \<open>\<open>PUT /api/feedback/:id\<close>, behind the middleware.\<close>

definition put_feedback :: "jsnum \<Rightarrow> jsval \<Rightarrow> jsval \<Rightarrow> jsval \<Rightarrow> db \<Rightarrow> response \<times> db" where
  "put_feedback feedbackId title description status s =
     (case feedbackId of
        NaN \<Rightarrow> ((400, Error ''Valid feedback id is required''), s)
      | Num n \<Rightarrow>
          if n = 0 then ((400, Error ''Valid feedback id is required''), s)
          else if status \<noteq> JUndefined \<and> \<not> ALLOWED_STATUSES_has status
          then ((400, Error ''Invalid status value''), s)
          else if fields_of title description status = []
          then ((400, Error ''No fields to update''), s)
          else (case update_feedback (fields_of title description status) n s of
                  (Inl err, s1) \<Rightarrow> ((500, Error ''Failed to update feedback''), s1)
                | (Inr changes, s1) \<Rightarrow>
                    (case select_feedback_by_id n s1 of
                       (None, s2) \<Rightarrow> ((500, Error ''Failed to retrieve updated feedback''), s2)
                     | (Some row, s2) \<Rightarrow> ((200, Updated_feedback row), s2))))"

definition PUT_feedback :: "string \<Rightarrow> string option \<Rightarrow> jsnum \<Rightarrow> jsval \<Rightarrow> jsval \<Rightarrow> jsval \<Rightarrow> db \<Rightarrow> response \<times> db" where
  "PUT_feedback secret token feedbackId title description status =
     requireAdmin secret token (put_feedback feedbackId title description status)"

definition GET_admin_verify :: "string \<Rightarrow> string option \<Rightarrow> db \<Rightarrow> response \<times> db" where
  "GET_admin_verify secret token = requireAdmin secret token (\<lambda>s. ((200, Ok_true), s))"

text \<open>\<open>DELETE /api/feedback/:id\<close>, behind the middleware: three statements in a row.\<close>

definition delete_feedback_handler :: "jsnum \<Rightarrow> db \<Rightarrow> response \<times> db" where
  "delete_feedback_handler feedbackId s =
     (case feedbackId of
        NaN \<Rightarrow> ((400, Error ''Valid feedback id is required''), s)
      | Num n \<Rightarrow>
          if n = 0 then ((400, Error ''Valid feedback id is required''), s)
          else (let s1 = delete_upvotes n s;
                    s2 = delete_comments n s1
                in (case delete_feedback n s2 of
                      (changes, s3) \<Rightarrow>
                        if changes = 0 then ((404, Error ''Feedback not found''), s3)
                        else ((200, Ok_true), s3))))"

definition DELETE_feedback :: "string \<Rightarrow> string option \<Rightarrow> jsnum \<Rightarrow> db \<Rightarrow> response \<times> db" where
  "DELETE_feedback secret token feedbackId = requireAdmin secret token (delete_feedback_handler feedbackId)"

text \<open>\<open>POST /api/feedback/:id/upvote\<close>\<close>

definition POST_upvote :: "jsnum \<Rightarrow> jsval \<Rightarrow> db \<Rightarrow> response \<times> db" where
  "POST_upvote feedbackId user_email s =
     (case feedbackId of
        NaN \<Rightarrow> ((400, Error ''feedback id and user_email are required''), s)
      | Num n \<Rightarrow>
          if n = 0 \<or> \<not> truthy user_email
          then ((400, Error ''feedback id and user_email are required''), s)
          else if \<not> isValidEmail user_email then ((400, Error ''Invalid email format''), s)
          else (case insert_upvote n user_email s of
                  (Inl err, s1) \<Rightarrow>
                    (if is_unique_violation err
                     then ((409, Error ''User has already upvoted this feedback''), s1)
                     else ((500, Error ''Failed to upvote''), s1))
                | (Inr lastID, s1) \<Rightarrow>
                    (case select_upvote_count n s1 of
                       (cnt, s2) \<Rightarrow> ((200, Upvoted ''Upvoted successfully'' cnt), s2))))"

text \<open>\<open>POST /api/feedback/:id/comments\<close>\<close>

definition POST_comments :: "jsnum \<Rightarrow> jsval \<Rightarrow> jsval \<Rightarrow> nat \<Rightarrow> db \<Rightarrow> response \<times> db" where
  "POST_comments feedbackId user_email comment_text now s =
     (case feedbackId of
        NaN \<Rightarrow> ((400, Error ''feedback id, user_email, and comment_text are required''), s)
      | Num n \<Rightarrow>
          if n = 0 \<or> \<not> truthy user_email \<or> \<not> truthy comment_text
          then ((400, Error ''feedback id, user_email, and comment_text are required''), s)
          else if \<not> isValidEmail user_email then ((400, Error ''Invalid email format''), s)
          else (case insert_comment n user_email comment_text now s of
                  (Inl err, s1) \<Rightarrow> ((500, Error ''Failed to add comment''), s1)
                | (Inr lastID, s1) \<Rightarrow>
                    (case select_comment_by_id lastID s1 of
                       (row, s2) \<Rightarrow> ((201, Created_comment row), s2))))"

text \<open>\<open>GET /api/feedback/:id/comments\<close>\<close>

definition GET_comments :: "jsnum \<Rightarrow> db \<Rightarrow> response \<times> db" where
  "GET_comments feedbackId s =
     (case feedbackId of
        NaN \<Rightarrow> ((400, Error ''feedback id is required''), s)
      | Num n \<Rightarrow>
          if n = 0 then ((400, Error ''feedback id is required''), s)
          else (case select_comments n s of
                  (rows, s1) \<Rightarrow> ((200, Comment_list rows), s1)))"

section \<open>Requests and reachable states\<close>

datatype request =
    Get_feedback "string option"
  | Post_feedback jsval jsval jsval
  | Put_feedback "string option" jsnum jsval jsval jsval
  | Get_admin_verify "string option"
  | Delete_feedback_req "string option" jsnum
  | Post_upvote jsnum jsval
  | Post_comments jsnum jsval jsval
  | Get_comments jsnum

text \<open>The router; \<open>secret\<close> is the configured token and \<open>now\<close> the clock.\<close>

fun handle :: "string \<Rightarrow> nat \<Rightarrow> request \<Rightarrow> db \<Rightarrow> response \<times> db" where
  "handle secret now (Get_feedback q) s = GET_feedback q s"
| "handle secret now (Post_feedback t d e) s = POST_feedback t d e now s"
| "handle secret now (Put_feedback tok i t d st) s = PUT_feedback secret tok i t d st s"
| "handle secret now (Get_admin_verify tok) s = GET_admin_verify secret tok s"
| "handle secret now (Delete_feedback_req tok i) s = DELETE_feedback secret tok i s"
| "handle secret now (Post_upvote i e) s = POST_upvote i e s"
| "handle secret now (Post_comments i e t) s = POST_comments i e t now s"
| "handle secret now (Get_comments i) s = GET_comments i s"

text \<open>The states the server can be in: the empty database, and every state a request leads to.\<close>

inductive reachable :: "string \<Rightarrow> db \<Rightarrow> bool" for secret :: string where
  reachable_empty: "reachable secret empty_db"
| reachable_step: "reachable secret s \<Longrightarrow> reachable secret (snd (handle secret now req s))"

section \<open>Predicates and states used in the statements\<close>

text \<open>The pair (feedback id, voter email) has a row in the upvotes table.\<close>

definition has_upvoted :: "db \<Rightarrow> int \<Rightarrow> string \<Rightarrow> bool" where
  "has_upvoted s n e = list_ex (\<lambda>u. u_feedback_id u = n \<and> u_user_email u = e) (upvotes s)"

text \<open>The database after one valid submission to the empty database.\<close>

definition one_item :: db where
  "one_item = snd (POST_feedback (JStr ''Idea'') (JStr ''Text'') (JStr ''a@b.c'') 7 empty_db)"

text \<open>The database after a second submission and an upvote of the first item.\<close>

definition two_items :: db where
  "two_items = snd (POST_upvote (Num 1) (JStr ''a@b.c'')
                 (snd (POST_feedback (JStr ''Second'') (JStr ''Text'') (JStr ''a@b.c'') 9 one_item)))"

text \<open>
  What an update of the row with id \<open>n\<close> may change between a row and its successor: a
  field that the body does not supply keeps its value, and so do the id, the email and the
  creation time; a row with another id stays as it is.
\<close>

definition frame :: "int \<Rightarrow> jsval \<Rightarrow> jsval \<Rightarrow> jsval \<Rightarrow> feedback_row \<Rightarrow> feedback_row \<Rightarrow> bool" where
  "frame n title description status r r' =
     (f_id r' = f_id r \<and> f_user_email r' = f_user_email r \<and> f_created_at r' = f_created_at r \<and>
      (title = JUndefined \<longrightarrow> f_title r' = f_title r) \<and>
      (description = JUndefined \<longrightarrow> f_description r' = f_description r) \<and>
      (status = JUndefined \<longrightarrow> f_status r' = f_status r) \<and>
      (f_id r \<noteq> n \<longrightarrow> r' = r))"

text \<open>The two orders of the listing, as relations between a row and a later row.\<close>

definition newer_first :: "feedback_view \<Rightarrow> feedback_view \<Rightarrow> bool" where
  "newer_first a b = (f_created_at (item b) \<le> f_created_at (item a))"

definition most_upvoted_first :: "feedback_view \<Rightarrow> feedback_view \<Rightarrow> bool" where
  "most_upvoted_first a b =
     (upvote_count b < upvote_count a \<or>
      (upvote_count b = upvote_count a \<and> f_created_at (item b) \<le> f_created_at (item a)))"

text \<open>Every stored title and description is a non-empty text.\<close>

definition texts_nonempty :: "db \<Rightarrow> bool" where
  "texts_nonempty s = list_all (\<lambda>r. f_title r \<noteq> [] \<and> f_description r \<noteq> []) (feedback s)"

section \<open>Facts about the statements\<close>

lemma fold_max_ge_init: "(a::int) \<le> fold max xs a"
  by (induction xs arbitrary: a) (auto intro: order_trans[OF max.cobounded2])

lemma fold_max_ge_elem: "x \<in> set xs \<Longrightarrow> (x::int) \<le> fold max xs a"
proof (induction xs arbitrary: a)
  case Nil
  then show ?case by simp
next
  case (Cons y ys)
  show ?case
  proof (cases "x = y")
    case True
    have "y \<le> max y a" by simp
    also have "\<dots> \<le> fold max ys (max y a)" by (rule fold_max_ge_init)
    finally show ?thesis using True by simp
  next
    case False
    with Cons.prems have "x \<in> set ys" by simp
    then show ?thesis using Cons.IH by simp
  qed
qed

text \<open>A new rowid is not the rowid of any row of the table.\<close>

lemma next_id_fresh: "x \<in> set ids \<Longrightarrow> x < next_id ids seq"
  using fold_max_ge_elem[of x ids seq] by (simp add: next_id_def)

lemma find_append_fresh:
  "\<forall>r \<in> set rows. \<not> P r \<Longrightarrow> P x \<Longrightarrow> find P (rows @ [x]) = Some x"
  by (induction rows) auto

lemma isValidEmail_truthy: "isValidEmail v \<Longrightarrow> truthy v"
  by (cases v) (auto simp: isValidEmail_def matches_email_def not_space_at_def is_space_def)

lemma valid_a_b_c: "isValidEmail (JStr ''a@b.c'')"
  by (simp add: isValidEmail_def matches_email_def not_space_at_def is_space_def)

section \<open>Feedback creation\<close>

text \<open>
  C5: a \<open>POST /api/feedback\<close> whose title is empty or missing, whose description is
  empty or missing, or whose email does not match the pattern is answered with 400, and
  the database (so the feedback table) is as before: no row is created.
\<close>

theorem POST_feedback_invalid:
  "\<not> truthy title \<or> \<not> truthy description \<or> \<not> isValidEmail user_email \<Longrightarrow>
     fst (fst (POST_feedback title description user_email now s)) = 400 \<and>
     snd (POST_feedback title description user_email now s) = s"
  using isValidEmail_truthy[of user_email] by (auto simp: POST_feedback_def)

theorem POST_feedback_invalid_witness:
  "\<not> isValidEmail (JStr ''not-an-email'') \<and>
   fst (fst (POST_feedback (JStr ''Idea'') (JStr ''Text'') (JStr ''not-an-email'') 7 empty_db)) = 400 \<and>
   snd (POST_feedback (JStr ''Idea'') (JStr ''Text'') (JStr ''not-an-email'') 7 empty_db) = empty_db"
proof -
  have bad: "\<not> isValidEmail (JStr ''not-an-email'')"
    by (simp add: isValidEmail_def matches_email_def not_space_at_def is_space_def)
  then have "\<not> truthy (JStr ''Idea'') \<or> \<not> truthy (JStr ''Text'') \<or> \<not> isValidEmail (JStr ''not-an-email'')"
    by simp
  from POST_feedback_invalid[OF this, of 7 empty_db] bad show ?thesis by simp
qed

text \<open>
  C6: a \<open>POST /api/feedback\<close> with a non-empty title, a non-empty description and an
  email that matches the pattern appends one row, with a fresh id, the status \<open>Open\<close>
  and the clock of the server as creation time, and answers 201 with that row and both
  counts zero. The other two tables are as before.
\<close>

theorem POST_feedback_valid:
  assumes "t \<noteq> []" and "d \<noteq> []" and "isValidEmail (JStr e)"
  shows "let i = next_id (map f_id (feedback s)) (feedback_seq s);
             row = \<lparr>f_id = i, f_title = t, f_description = d, f_user_email = e,
                     f_created_at = now, f_status = Some ''Open''\<rparr>;
             out = POST_feedback (JStr t) (JStr d) (JStr e) now s
         in fst out = (201, Created_feedback (Some row) 0 0) \<and>
            feedback (snd out) = feedback s @ [row] \<and>
            (\<forall>r \<in> set (feedback s). f_id r \<noteq> i) \<and>
            upvotes (snd out) = upvotes s \<and> comments (snd out) = comments s"
proof -
  define i where "i = next_id (map f_id (feedback s)) (feedback_seq s)"
  have fresh: "\<forall>r \<in> set (feedback s). f_id r \<noteq> i"
    using next_id_fresh[of _ "map f_id (feedback s)" "feedback_seq s"] unfolding i_def by fastforce
  have e: "e \<noteq> []" using isValidEmail_truthy[OF assms(3)] by simp
  show ?thesis
    using assms e fresh find_append_fresh[of "feedback s" "\<lambda>r. f_id r = i", OF fresh]
    unfolding i_def
    by (simp add: POST_feedback_def insert_feedback_def select_feedback_by_id_def logged_def Let_def)
qed

theorem POST_feedback_valid_witness:
  "let out = POST_feedback (JStr ''Idea'') (JStr ''Text'') (JStr ''a@b.c'') 7 empty_db
   in fst out = (201, Created_feedback (Some \<lparr>f_id = 1, f_title = ''Idea'', f_description = ''Text'',
        f_user_email = ''a@b.c'', f_created_at = 7, f_status = Some ''Open''\<rparr>) 0 0)
      \<and> length (feedback (snd out)) = 1"
  using POST_feedback_valid[of "''Idea''" "''Text''" "''a@b.c''" empty_db 7, OF _ _ valid_a_b_c]
  by (simp add: Let_def empty_db_def next_id_def)

lemma one_item_eq: "one_item =
   \<lparr>feedback = [\<lparr>f_id = 1, f_title = ''Idea'', f_description = ''Text'', f_user_email = ''a@b.c'',
                  f_created_at = 7, f_status = Some ''Open''\<rparr>],
     upvotes = [], comments = [], feedback_seq = 1, upvotes_seq = 0, comments_seq = 0,
     executed = [Insert_feedback (JStr ''Idea'') (JStr ''Text'') (JStr ''a@b.c''), Select_feedback_by_id 1]\<rparr>"
  using valid_a_b_c isValidEmail_truthy[OF valid_a_b_c]
  by (simp add: one_item_def POST_feedback_def insert_feedback_def select_feedback_by_id_def
      logged_def Let_def empty_db_def next_id_def)

section \<open>Upvoting\<close>

lemma POST_upvote_fresh:
  assumes "n \<noteq> 0" and "isValidEmail (JStr e)" and "\<not> has_upvoted s n e"
  shows "POST_upvote (Num n) (JStr e) s =
     ((200, Upvoted ''Upvoted successfully'' (upvote_count_of s n + 1)),
      s\<lparr>upvotes := upvotes s @ [\<lparr>u_id = next_id (map u_id (upvotes s)) (upvotes_seq s),
                                   u_feedback_id = n, u_user_email = e\<rparr>],
        upvotes_seq := next_id (map u_id (upvotes s)) (upvotes_seq s),
        executed := executed s @ [Insert_upvote n (JStr e), Select_upvote_count n]\<rparr>)"
  using assms isValidEmail_truthy[OF assms(2)]
  by (simp add: POST_upvote_def insert_upvote_def select_upvote_count_def logged_def Let_def
      has_upvoted_def upvote_count_of_def)

lemma POST_upvote_duplicate:
  assumes "n \<noteq> 0" and "isValidEmail (JStr e)" and "has_upvoted s n e"
  shows "POST_upvote (Num n) (JStr e) s =
     ((409, Error ''User has already upvoted this feedback''),
      s\<lparr>executed := executed s @ [Insert_upvote n (JStr e)]\<rparr>)"
  using assms isValidEmail_truthy[OF assms(2)]
  by (simp add: POST_upvote_def insert_upvote_def logged_def Let_def has_upvoted_def)

text \<open>
  C1: for a truthy id and an email that matches the pattern, a \<open>POST\<close> upvote of a pair
  that has no upvote row answers 200 with the number of upvote rows of the item after the
  insert (one more than before); a \<open>POST\<close> upvote of a pair that has a row, so any
  second one, answers 409 and leaves the upvotes table and the count of the item as they
  were. The only statement of the 409 path is the insert itself: the conflict is the
  constraint violation of the insert, and no query precedes it.
\<close>

theorem POST_upvote_once:
  assumes "n \<noteq> 0" and "isValidEmail (JStr e)"
  shows "let first = POST_upvote (Num n) (JStr e) s;
             second = POST_upvote (Num n) (JStr e) (snd first)
         in (if has_upvoted s n e
             then fst first = (409, Error ''User has already upvoted this feedback'') \<and>
                  upvotes (snd first) = upvotes s \<and>
                  executed (snd first) = executed s @ [Insert_upvote n (JStr e)]
             else fst first = (200, Upvoted ''Upvoted successfully'' (upvote_count_of (snd first) n)) \<and>
                  upvote_count_of (snd first) n = upvote_count_of s n + 1 \<and>
                  executed (snd first) = executed s @ [Insert_upvote n (JStr e), Select_upvote_count n]) \<and>
            has_upvoted (snd first) n e \<and>
            fst second = (409, Error ''User has already upvoted this feedback'') \<and>
            upvotes (snd second) = upvotes (snd first) \<and>
            upvote_count_of (snd second) n = upvote_count_of (snd first) n \<and>
            executed (snd second) = executed (snd first) @ [Insert_upvote n (JStr e)]"
proof (cases "has_upvoted s n e")
  case True
  note dup = POST_upvote_duplicate[OF assms True]
  have again: "has_upvoted (snd (POST_upvote (Num n) (JStr e) s)) n e"
    using True by (simp add: dup has_upvoted_def)
  show ?thesis
    using True again POST_upvote_duplicate[OF assms again]
    by (simp add: Let_def dup upvote_count_of_def)
next
  case False
  note fresh = POST_upvote_fresh[OF assms False]
  have again: "has_upvoted (snd (POST_upvote (Num n) (JStr e) s)) n e"
    by (simp add: fresh has_upvoted_def)
  show ?thesis
    using False again POST_upvote_duplicate[OF assms again]
    by (simp add: Let_def fresh upvote_count_of_def)
qed

theorem POST_upvote_once_witness:
  "let first = POST_upvote (Num 1) (JStr ''a@b.c'') empty_db;
       second = POST_upvote (Num 1) (JStr ''a@b.c'') (snd first)
   in fst first = (200, Upvoted ''Upvoted successfully'' 1) \<and>
      fst second = (409, Error ''User has already upvoted this feedback'') \<and>
      upvote_count_of (snd second) 1 = 1"
  using POST_upvote_once[of 1 "''a@b.c''" empty_db, OF _ valid_a_b_c]
  by (simp add: Let_def has_upvoted_def empty_db_def upvote_count_of_def)

section \<open>Commenting\<close>

lemma POST_comments_valid:
  assumes "n \<noteq> 0" and "isValidEmail (JStr e)" and "t \<noteq> []"
  shows "POST_comments (Num n) (JStr e) (JStr t) now s =
     ((201, Created_comment (Some \<lparr>c_id = next_id (map c_id (comments s)) (comments_seq s),
          c_feedback_id = n, c_user_email = e, c_comment_text = t, c_created_at = now\<rparr>)),
      s\<lparr>comments := comments s @ [\<lparr>c_id = next_id (map c_id (comments s)) (comments_seq s),
          c_feedback_id = n, c_user_email = e, c_comment_text = t, c_created_at = now\<rparr>],
        comments_seq := next_id (map c_id (comments s)) (comments_seq s),
        executed := executed s @ [Insert_comment n (JStr e) (JStr t),
          Select_comment_by_id (next_id (map c_id (comments s)) (comments_seq s))]\<rparr>)"
proof -
  define k where "k = next_id (map c_id (comments s)) (comments_seq s)"
  have fresh: "\<forall>c \<in> set (comments s). c_id c \<noteq> k"
    using next_id_fresh[of _ "map c_id (comments s)" "comments_seq s"] unfolding k_def by fastforce
  show ?thesis
    using assms isValidEmail_truthy[OF assms(2)]
      find_append_fresh[of "comments s" "\<lambda>c. c_id c = k", OF fresh]
    unfolding k_def
    by (simp add: POST_comments_def insert_comment_def select_comment_by_id_def logged_def Let_def)
qed

text \<open>
  C10: neither \<open>POST /api/feedback/:id/upvote\<close> nor \<open>POST /api/feedback/:id/comments\<close>
  looks the feedback id up. For every truthy id, with an email that matches the pattern and
  a non-empty comment text, the comment answers 201 with the created row, and the upvote
  answers 200 with the count (409 only when the pair has an upvote row already). The new
  row carries the id, the statements executed are the insert and the read-back only, the
  feedback table is left as it is, and the answers are the same whatever the feedback table
  holds. So with no feedback row of that id, the new row references a feedback item that
  does not exist.
\<close>

theorem POST_no_existence_check:
  assumes "n \<noteq> 0" and "isValidEmail (JStr e)" and "t \<noteq> []"
  shows "let up = POST_upvote (Num n) (JStr e) s;
             co = POST_comments (Num n) (JStr e) (JStr t) now s;
             u = \<lparr>u_id = next_id (map u_id (upvotes s)) (upvotes_seq s), u_feedback_id = n,
                   u_user_email = e\<rparr>;
             c = \<lparr>c_id = next_id (map c_id (comments s)) (comments_seq s), c_feedback_id = n,
                   c_user_email = e, c_comment_text = t, c_created_at = now\<rparr>
         in fst up = (if has_upvoted s n e
                      then (409, Error ''User has already upvoted this feedback'')
                      else (200, Upvoted ''Upvoted successfully'' (upvote_count_of (snd up) n))) \<and>
            upvotes (snd up) = (if has_upvoted s n e then upvotes s else upvotes s @ [u]) \<and>
            feedback (snd up) = feedback s \<and>
            executed (snd up) = executed s @
              (if has_upvoted s n e then [Insert_upvote n (JStr e)]
               else [Insert_upvote n (JStr e), Select_upvote_count n]) \<and>
            fst (POST_upvote (Num n) (JStr e) (s\<lparr>feedback := fb\<rparr>)) = fst up \<and>
            fst co = (201, Created_comment (Some c)) \<and>
            comments (snd co) = comments s @ [c] \<and>
            feedback (snd co) = feedback s \<and>
            executed (snd co) = executed s @
              [Insert_comment n (JStr e) (JStr t), Select_comment_by_id (c_id c)] \<and>
            fst (POST_comments (Num n) (JStr e) (JStr t) now (s\<lparr>feedback := fb\<rparr>)) = fst co"
proof (cases "has_upvoted s n e")
  case True
  then have other: "has_upvoted (s\<lparr>feedback := fb\<rparr>) n e" by (simp add: has_upvoted_def)
  show ?thesis
    using True
    by (simp add: Let_def POST_upvote_duplicate[OF assms(1,2) True]
        POST_upvote_duplicate[OF assms(1,2) other] POST_comments_valid[OF assms])
next
  case False
  then have other: "\<not> has_upvoted (s\<lparr>feedback := fb\<rparr>) n e" by (simp add: has_upvoted_def)
  show ?thesis
    using False
    by (simp add: Let_def POST_upvote_fresh[OF assms(1,2) False]
        POST_upvote_fresh[OF assms(1,2) other] POST_comments_valid[OF assms] upvote_count_of_def)
qed

theorem POST_no_existence_check_witness:
  "let up = POST_upvote (Num 99) (JStr ''a@b.c'') empty_db;
       co = POST_comments (Num 99) (JStr ''a@b.c'') (JStr ''hi'') 5 empty_db
   in feedback empty_db = [] \<and>
      fst up = (200, Upvoted ''Upvoted successfully'' 1) \<and>
      map u_feedback_id (upvotes (snd up)) = [99] \<and>
      feedback (snd up) = [] \<and>
      fst co = (201, Created_comment (Some \<lparr>c_id = 1, c_feedback_id = 99, c_user_email = ''a@b.c'',
         c_comment_text = ''hi'', c_created_at = 5\<rparr>)) \<and>
      map c_feedback_id (comments (snd co)) = [99] \<and>
      feedback (snd co) = []"
  using POST_no_existence_check[of 99 "''a@b.c''" "''hi''" empty_db 5, OF _ valid_a_b_c]
  by (simp add: Let_def has_upvoted_def empty_db_def upvote_count_of_def next_id_def)

section \<open>Deletion\<close>

text \<open>The configured token is never empty, so a request is authorized when its header equals it.\<close>

lemma ADMIN_TOKEN_nonempty: "ADMIN_TOKEN env \<noteq> []"
  by (simp add: ADMIN_TOKEN_def split: option.splits)

lemma requireAdmin_pass: "secret \<noteq> [] \<Longrightarrow> requireAdmin secret (Some secret) next s = next s"
  by (simp add: requireAdmin_def)

text \<open>
  C3: an authorized \<open>DELETE /api/feedback/:id\<close> with a truthy id executes three statements
  in this order: the delete of the upvotes of the id, the delete of the comments of the id,
  the delete of the feedback row. Afterwards no row of the three tables refers to the id.
  When the last delete changes no row (no feedback row had the id) the answer is 404, and
  the first two deletes have been done all the same; otherwise the answer is 200.
\<close>

theorem DELETE_feedback_cascade:
  assumes "secret \<noteq> []" and "n \<noteq> 0"
  shows "let out = DELETE_feedback secret (Some secret) (Num n) s
         in snd out = snd (delete_feedback n (delete_comments n (delete_upvotes n s))) \<and>
            executed (snd out) = executed s @ [Delete_upvotes n, Delete_comments n, Delete_feedback n] \<and>
            upvotes (snd out) = filter (\<lambda>u. u_feedback_id u \<noteq> n) (upvotes s) \<and>
            comments (snd out) = filter (\<lambda>c. c_feedback_id c \<noteq> n) (comments s) \<and>
            feedback (snd out) = filter (\<lambda>r. f_id r \<noteq> n) (feedback s) \<and>
            fst out = (if find (\<lambda>r. f_id r = n) (feedback s) = None
                       then (404, Error ''Feedback not found'') else (200, Ok_true))"
proof -
  have zero: "(filter (\<lambda>r. f_id r = n) (feedback s) = []) = (find (\<lambda>r. f_id r = n) (feedback s) = None)"
    by (auto simp: find_None_iff filter_empty_conv)
  show ?thesis
    using assms zero
    by (simp add: DELETE_feedback_def requireAdmin_pass delete_feedback_handler_def
        delete_upvotes_def delete_comments_def delete_feedback_def logged_def Let_def)
qed

theorem DELETE_feedback_cascade_witness:
  "let s = snd (POST_comments (Num 99) (JStr ''a@b.c'') (JStr ''hi'') 5
                 (snd (POST_upvote (Num 99) (JStr ''a@b.c'') empty_db)));
       out = DELETE_feedback ''changeme'' (Some ''changeme'') (Num 99) s
   in length (upvotes s) = 1 \<and> length (comments s) = 1 \<and>
      fst out = (404, Error ''Feedback not found'') \<and>
      upvotes (snd out) = [] \<and> comments (snd out) = [] \<and>
      executed (snd out) = executed s @ [Delete_upvotes 99, Delete_comments 99, Delete_feedback 99]"
  using DELETE_feedback_cascade[of "''changeme''" 99
      "snd (POST_comments (Num 99) (JStr ''a@b.c'') (JStr ''hi'') 5
                 (snd (POST_upvote (Num 99) (JStr ''a@b.c'') empty_db)))"]
  by (simp add: Let_def POST_comments_valid[OF _ valid_a_b_c] has_upvoted_def
       POST_upvote_fresh[OF _ valid_a_b_c] empty_db_def delete_upvotes_def delete_comments_def
       delete_feedback_def logged_def next_id_def)

section \<open>Admin update\<close>

lemma fields_of_empty: "(fields_of title description status = []) =
    (title = JUndefined \<and> description = JUndefined \<and> status = JUndefined)"
  by (simp add: fields_of_def)

lemma fields_of_not_null: "list_ex violates_not_null (fields_of title description status) =
    (title = JNull \<or> description = JNull)"
  by (cases title; cases description; cases status) (simp_all add: fields_of_def)

lemma patched_keeps:
  "f_id (fold assign (fields_of title description status) r) = f_id r"
  "f_user_email (fold assign (fields_of title description status) r) = f_user_email r"
  "f_created_at (fold assign (fields_of title description status) r) = f_created_at r"
  by (simp_all add: fields_of_def)

lemma patched_title:
  "f_title (fold assign (fields_of title description status) r) =
     (case title of JStr t \<Rightarrow> t | _ \<Rightarrow> f_title r)"
  by (cases title) (simp_all add: fields_of_def)

lemma patched_description:
  "f_description (fold assign (fields_of title description status) r) =
     (case description of JStr d \<Rightarrow> d | _ \<Rightarrow> f_description r)"
  by (cases description) (simp_all add: fields_of_def)

lemma patched_status:
  "f_status (fold assign (fields_of title description status) r) =
     (case status of JUndefined \<Rightarrow> f_status r | JNull \<Rightarrow> None | JStr v \<Rightarrow> Some v)"
  by (cases status) (simp_all add: fields_of_def)

lemma find_map_same_id:
  assumes "\<And>r. f_id (g r) = f_id r"
  shows "find (\<lambda>r. f_id r = n) (map (\<lambda>r. if f_id r = n then g r else r) rows) =
         map_option g (find (\<lambda>r. f_id r = n) rows)"
  using assms by (induction rows) auto

lemma map_no_hit:
  "filter (\<lambda>r. f_id r = n) rows = [] \<Longrightarrow> map (\<lambda>r. if f_id r = n then g r else r) rows = rows"
  by (induction rows) (auto split: if_splits)

lemma filter_hits_find:
  "(filter (\<lambda>r. f_id r = n) rows = []) = (find (\<lambda>r. f_id r = n) rows = None)"
  by (auto simp: find_None_iff filter_empty_conv)

text \<open>The outcomes of the handler behind the middleware, for a truthy id.\<close>

lemma put_feedback_outcome:
  assumes "n \<noteq> 0"
  shows "put_feedback (Num n) title description status s =
     (if status \<noteq> JUndefined \<and> \<not> ALLOWED_STATUSES_has status
      then ((400, Error ''Invalid status value''), s)
      else if title = JUndefined \<and> description = JUndefined \<and> status = JUndefined
      then ((400, Error ''No fields to update''), s)
      else case find (\<lambda>r. f_id r = n) (feedback s) of
        None \<Rightarrow> ((500, Error ''Failed to retrieve updated feedback''),
                  s\<lparr>executed := executed s @
                     [Update_feedback (fields_of title description status) n, Select_feedback_by_id n]\<rparr>)
      | Some r \<Rightarrow>
          if title = JNull \<or> description = JNull
          then ((500, Error ''Failed to update feedback''),
                s\<lparr>executed := executed s @ [Update_feedback (fields_of title description status) n]\<rparr>)
          else ((200, Updated_feedback (fold assign (fields_of title description status) r)),
                s\<lparr>feedback := map (\<lambda>r. if f_id r = n
                                        then fold assign (fields_of title description status) r else r)
                                 (feedback s),
                  executed := executed s @
                     [Update_feedback (fields_of title description status) n, Select_feedback_by_id n]\<rparr>))"
proof -
  define fs where "fs = fields_of title description status"
  have empty: "(fs = []) = (title = JUndefined \<and> description = JUndefined \<and> status = JUndefined)"
    unfolding fs_def by (rule fields_of_empty)
  have nulls: "list_ex violates_not_null fs = (title = JNull \<or> description = JNull)"
    unfolding fs_def by (rule fields_of_not_null)
  have keeps: "\<And>r. f_id (fold assign fs r) = f_id r"
    unfolding fs_def by (rule patched_keeps)
  show ?thesis
  proof (cases "find (\<lambda>r. f_id r = n) (feedback s)")
    case None
    then have nohit: "filter (\<lambda>r. f_id r = n) (feedback s) = []"
      by (simp add: filter_hits_find)
    show ?thesis
      unfolding put_feedback_def fs_def[symmetric]
      using assms None nohit map_no_hit[OF nohit, of "fold assign fs"] empty
      by (simp add: update_feedback_def select_feedback_by_id_def logged_def Let_def)
  next
    case (Some r)
    then have hit: "filter (\<lambda>r. f_id r = n) (feedback s) \<noteq> []"
      by (simp add: filter_hits_find)
    have found: "find (\<lambda>r. f_id r = n)
         (map (\<lambda>r. if f_id r = n then fold assign fs r else r) (feedback s)) =
         Some (fold assign fs r)"
      using find_map_same_id[of "fold assign fs" n "feedback s"] Some keeps by simp
    show ?thesis
      unfolding put_feedback_def fs_def[symmetric]
      using assms Some hit found empty nulls
      by (simp add: update_feedback_def select_feedback_by_id_def logged_def Let_def)
  qed
qed

lemma PUT_feedback_authorized:
  "secret \<noteq> [] \<Longrightarrow> PUT_feedback secret (Some secret) i title description status s =
     put_feedback i title description status s"
  by (simp add: PUT_feedback_def requireAdmin_def)

lemma put_feedback_falsy:
  "\<not> truthy_num i \<Longrightarrow> put_feedback i title description status s =
     ((400, Error ''Valid feedback id is required''), s)"
  by (cases i) (simp_all add: put_feedback_def)

lemma put_feedback_bad_status:
  assumes "status \<noteq> JUndefined" and "\<not> ALLOWED_STATUSES_has status"
  shows "fst (fst (put_feedback i title description status s)) = 400 \<and>
         snd (put_feedback i title description status s) = s"
  using assms by (cases i) (simp_all add: put_feedback_def)

text \<open>
  C7: an authorized \<open>PUT /api/feedback/:id\<close> whose body has a status that is not one of
  \<open>Open\<close>, \<open>Planned\<close>, \<open>In Progress\<close>, \<open>Completed\<close> is answered with 400 and the
  database, so the stored status, is as before. With the status \<open>Planned\<close>, a truthy id
  of a stored item and no \<open>null\<close> title or description, the answer is 200 with the
  updated row, whose status, as stored, is \<open>Planned\<close>.
\<close>

theorem PUT_feedback_status:
  assumes "secret \<noteq> []"
  shows "(status \<noteq> JUndefined \<and> \<not> ALLOWED_STATUSES_has status \<longrightarrow>
            fst (fst (PUT_feedback secret (Some secret) i title description status s)) = 400 \<and>
            snd (PUT_feedback secret (Some secret) i title description status s) = s) \<and>
         (n \<noteq> 0 \<and> find (\<lambda>r. f_id r = n) (feedback s) \<noteq> None \<and>
            title \<noteq> JNull \<and> description \<noteq> JNull \<longrightarrow>
            (let out = PUT_feedback secret (Some secret) (Num n) title description (JStr ''Planned'') s
             in \<exists>row. fst out = (200, Updated_feedback row) \<and>
                  find (\<lambda>r. f_id r = n) (feedback (snd out)) = Some row \<and>
                  f_status row = Some ''Planned'' \<and>
                  (\<forall>r \<in> set (feedback (snd out)). f_id r = n \<longrightarrow> f_status r = Some ''Planned'')))"
proof (intro conjI impI)
  assume "status \<noteq> JUndefined \<and> \<not> ALLOWED_STATUSES_has status"
  then show "fst (fst (PUT_feedback secret (Some secret) i title description status s)) = 400"
    and "snd (PUT_feedback secret (Some secret) i title description status s) = s"
    using put_feedback_bad_status[of status i title description s]
    by (simp_all add: PUT_feedback_authorized[OF assms])
next
  assume h: "n \<noteq> 0 \<and> find (\<lambda>r. f_id r = n) (feedback s) \<noteq> None \<and>
            title \<noteq> JNull \<and> description \<noteq> JNull"
  then obtain r where r: "find (\<lambda>r. f_id r = n) (feedback s) = Some r" by auto
  define g where "g = fold assign (fields_of title description (JStr ''Planned''))"
  have gid: "\<And>x. f_id (g x) = f_id x" and gst: "\<And>x. f_status (g x) = Some ''Planned''"
    unfolding g_def by (simp_all add: patched_keeps patched_status)
  have allowed: "ALLOWED_STATUSES_has (JStr ''Planned'')"
    by (simp add: ALLOWED_STATUSES_def)
  have out: "PUT_feedback secret (Some secret) (Num n) title description (JStr ''Planned'') s =
      ((200, Updated_feedback (g r)),
       s\<lparr>feedback := map (\<lambda>r. if f_id r = n then g r else r) (feedback s),
         executed := executed s @
           [Update_feedback (fields_of title description (JStr ''Planned'')) n,
            Select_feedback_by_id n]\<rparr>)"
    using h r allowed unfolding g_def
    by (simp add: PUT_feedback_authorized[OF assms] put_feedback_outcome)
  have found: "find (\<lambda>r. f_id r = n) (map (\<lambda>r. if f_id r = n then g r else r) (feedback s)) = Some (g r)"
    using find_map_same_id[of g n "feedback s"] gid r by simp
  show "let out = PUT_feedback secret (Some secret) (Num n) title description (JStr ''Planned'') s
        in \<exists>row. fst out = (200, Updated_feedback row) \<and>
             find (\<lambda>r. f_id r = n) (feedback (snd out)) = Some row \<and>
             f_status row = Some ''Planned'' \<and>
             (\<forall>r \<in> set (feedback (snd out)). f_id r = n \<longrightarrow> f_status r = Some ''Planned'')"
    using found gst gid by (auto simp: out Let_def)
qed

theorem PUT_feedback_status_witness:
  "fst (fst (PUT_feedback ''changeme'' (Some ''changeme'') (Num 1) JUndefined JUndefined (JStr ''Bogus'') one_item)) = 400 \<and>
   snd (PUT_feedback ''changeme'' (Some ''changeme'') (Num 1) JUndefined JUndefined (JStr ''Bogus'') one_item) = one_item \<and>
   map f_status (feedback one_item) = [Some ''Open''] \<and>
   fst (fst (PUT_feedback ''changeme'' (Some ''changeme'') (Num 1) JUndefined JUndefined (JStr ''Planned'') one_item)) = 200 \<and>
   map_option f_status (find (\<lambda>r. f_id r = 1) (feedback (snd
     (PUT_feedback ''changeme'' (Some ''changeme'') (Num 1) JUndefined JUndefined (JStr ''Planned'') one_item))))
     = Some (Some ''Planned'')"
proof -
  have stored: "find (\<lambda>r. f_id r = 1) (feedback one_item) \<noteq> None"
    and before: "map f_status (feedback one_item) = [Some ''Open'']"
    by (simp_all add: one_item_eq)
  have bogus: "\<not> ALLOWED_STATUSES_has (JStr ''Bogus'')"
    by (simp add: ALLOWED_STATUSES_def)
  show ?thesis
    using PUT_feedback_status[of "''changeme''" "JStr ''Bogus''" "Num 1" JUndefined JUndefined one_item 1]
      stored before bogus
    by (auto simp: Let_def)
qed

section \<open>The matcher computes the regular expression\<close>

lemma dot_in_class: "not_space_at (CHR ''.'')" and at_not_in_class: "\<not> not_space_at (CHR ''@'')"
  by (simp_all add: not_space_at_def is_space_def)

lemma email_regex_matches:
  assumes "email_regex s"
  shows "matches_email s"
proof -
  from assms obtain a b c where s: "s = a @ ''@'' @ b @ ''.'' @ c"
    and ne: "a \<noteq> []" "b \<noteq> []" "c \<noteq> []"
    and cls: "list_all not_space_at a" "list_all not_space_at b" "list_all not_space_at c"
    unfolding email_regex_def by blast
  have s': "s = a @ CHR ''@'' # (b @ CHR ''.'' # c)" using s by simp
  have tw: "takeWhile not_space_at s = a"
    unfolding s' using cls(1) at_not_in_class
    by (simp add: takeWhile_tail list_all_iff)
  have dw: "dropWhile not_space_at s = CHR ''@'' # (b @ CHR ''.'' # c)"
    unfolding s' using cls(1) at_not_in_class
    by (simp add: dropWhile_append3 list_all_iff)
  have "tl (b @ CHR ''.'' # c) = tl b @ CHR ''.'' # c" using ne(2) by simp
  moreover have "butlast (tl b @ CHR ''.'' # c) = tl b @ CHR ''.'' # butlast c"
    using ne(3) by (simp add: butlast_append)
  ultimately have dot: "CHR ''.'' \<in> set (butlast (tl (b @ CHR ''.'' # c)))" by simp
  have all: "list_all not_space_at (b @ CHR ''.'' # c)"
    using cls dot_in_class by simp
  show ?thesis
    unfolding matches_email_def tw dw using ne(1) dot all by simp
qed

lemma matches_email_regex:
  assumes "matches_email s"
  shows "email_regex s"
proof -
  define a where "a = takeWhile not_space_at s"
  from assms have ane: "a \<noteq> []" by (simp add: matches_email_def a_def)
  from assms obtain d where dw: "dropWhile not_space_at s = CHR ''@'' # d"
    and all: "list_all not_space_at d" and dot: "CHR ''.'' \<in> set (butlast (tl d))"
    by (auto simp: matches_email_def split: list.splits)
  have s: "s = a @ CHR ''@'' # d"
    using takeWhile_dropWhile_id[of not_space_at s] dw a_def by simp
  have acl: "list_all not_space_at a"
    unfolding a_def list_all_iff by (auto dest: set_takeWhileD)
  from dot obtain u v where uv: "butlast (tl d) = u @ CHR ''.'' # v"
    by (auto dest: split_list)
  then have tne: "tl d \<noteq> []" by auto
  then have dne: "d \<noteq> []" by auto
  have "tl d = butlast (tl d) @ [last (tl d)]" using tne by simp
  then have "d = hd d # u @ CHR ''.'' # (v @ [last (tl d)])"
    using dne uv by (metis append_Cons append_assoc list.collapse)
  then have d: "d = (hd d # u) @ ''.'' @ (v @ [last (tl d)])" by simp
  have "list_all not_space_at (hd d # u)" "list_all not_space_at (v @ [last (tl d)])"
    using all d by (metis list_all_append)+
  then show ?thesis
    unfolding email_regex_def using s d ane acl
    by (metis append_Cons append_Nil list.distinct(1) snoc_eq_iff_butlast)
qed

lemma matches_email_iff: "matches_email s = email_regex s"
  using email_regex_matches matches_email_regex by blast

section \<open>The frame of an update\<close>

lemma frame_refl: "list_all2 (frame n title description status) rows rows"
  by (simp add: list_all2_same frame_def)

lemma frame_patched:
  "list_all2 (frame n title description status) rows
     (map (\<lambda>r. if f_id r = n then fold assign (fields_of title description status) r else r) rows)"
  by (simp add: list_all2_map2 list_all2_same frame_def patched_keeps patched_title
      patched_description patched_status)

lemma two_items_eq: "two_items =
   \<lparr>feedback = [\<lparr>f_id = 1, f_title = ''Idea'', f_description = ''Text'', f_user_email = ''a@b.c'',
                  f_created_at = 7, f_status = Some ''Open''\<rparr>,
                \<lparr>f_id = 2, f_title = ''Second'', f_description = ''Text'', f_user_email = ''a@b.c'',
                  f_created_at = 9, f_status = Some ''Open''\<rparr>],
     upvotes = [\<lparr>u_id = 1, u_feedback_id = 1, u_user_email = ''a@b.c''\<rparr>],
     comments = [], feedback_seq = 2, upvotes_seq = 1, comments_seq = 0,
     executed = [Insert_feedback (JStr ''Idea'') (JStr ''Text'') (JStr ''a@b.c''), Select_feedback_by_id 1,
                 Insert_feedback (JStr ''Second'') (JStr ''Text'') (JStr ''a@b.c''), Select_feedback_by_id 2,
                 Insert_upvote 1 (JStr ''a@b.c''), Select_upvote_count 1]\<rparr>"
  using valid_a_b_c isValidEmail_truthy[OF valid_a_b_c]
  by (simp add: two_items_def one_item_eq POST_feedback_def insert_feedback_def
      select_feedback_by_id_def POST_upvote_def insert_upvote_def select_upvote_count_def
      upvote_count_of_def logged_def Let_def next_id_def)

text \<open>
  C8: an authorized \<open>PUT /api/feedback/:id\<close> changes nothing but the supplied fields of
  the rows with the target id: a field that is not supplied keeps its value, as do the id,
  the email and the creation time, every other feedback row is as before, and so are the
  upvotes and the comments. When the answer is 200 its body is the resulting row, as
  stored, holding the supplied values; that is the answer exactly when the id is truthy and
  has a row, a field is supplied, the status (if supplied) is allowed, and neither title nor
  description is \<open>null\<close>. A request that supplies none of the three fields is answered with
  400 (\<open>No fields to update\<close> for a truthy id) and changes nothing.
\<close>

theorem PUT_feedback_frame:
  assumes "secret \<noteq> []"
  shows "let out = PUT_feedback secret (Some secret) (Num n) title description status s
         in upvotes (snd out) = upvotes s \<and> comments (snd out) = comments s \<and>
            list_all2 (frame n title description status) (feedback s) (feedback (snd out)) \<and>
            (title = JUndefined \<and> description = JUndefined \<and> status = JUndefined \<longrightarrow>
               fst (fst out) = 400 \<and> snd out = s \<and>
               (n \<noteq> 0 \<longrightarrow> snd (fst out) = Error ''No fields to update'')) \<and>
            (fst (fst out) = 200 \<longrightarrow>
               (\<exists>row. snd (fst out) = Updated_feedback row \<and>
                  find (\<lambda>r. f_id r = n) (feedback (snd out)) = Some row \<and>
                  (\<forall>t. title = JStr t \<longrightarrow> f_title row = t) \<and>
                  (\<forall>d. description = JStr d \<longrightarrow> f_description row = d) \<and>
                  (\<forall>v. status = JStr v \<longrightarrow> f_status row = Some v))) \<and>
            (fst (fst out) = 200) =
               (n \<noteq> 0 \<and> \<not> (title = JUndefined \<and> description = JUndefined \<and> status = JUndefined) \<and>
                (status = JUndefined \<or> ALLOWED_STATUSES_has status) \<and>
                title \<noteq> JNull \<and> description \<noteq> JNull \<and>
                find (\<lambda>r. f_id r = n) (feedback s) \<noteq> None)"
proof (cases "n = 0")
  case True
  then show ?thesis
    by (simp add: PUT_feedback_authorized[OF assms] put_feedback_falsy frame_refl)
next
  case False
  define g where "g = fold assign (fields_of title description status)"
  have gid: "\<And>x. f_id (g x) = f_id x" unfolding g_def by (rule patched_keeps)
  have found: "find (\<lambda>r. f_id r = n) (map (\<lambda>r. if f_id r = n then g r else r) (feedback s)) =
      map_option g (find (\<lambda>r. f_id r = n) (feedback s))"
    using find_map_same_id[of g n "feedback s"] gid by simp
  have gt: "\<And>x t. title = JStr t \<Longrightarrow> f_title (g x) = t"
    and gd: "\<And>x d. description = JStr d \<Longrightarrow> f_description (g x) = d"
    and gs: "\<And>x v. status = JStr v \<Longrightarrow> f_status (g x) = Some v"
    unfolding g_def by (simp_all add: patched_title patched_description patched_status)
  have fr: "list_all2 (frame n title description status) (feedback s)
     (map (\<lambda>r. if f_id r = n then g r else r) (feedback s))"
    unfolding g_def by (rule frame_patched)
  show ?thesis
    using False found gt gd gs fr
    unfolding Let_def PUT_feedback_authorized[OF assms] put_feedback_outcome[OF False] g_def[symmetric]
    by (auto simp: frame_refl split: option.splits)
qed

theorem PUT_feedback_frame_witness:
  "let out = PUT_feedback ''changeme'' (Some ''changeme'') (Num 1) (JStr ''New'') JUndefined JUndefined two_items;
       noop = PUT_feedback ''changeme'' (Some ''changeme'') (Num 1) JUndefined JUndefined JUndefined two_items
   in fst (fst out) = 200 \<and>
      map_option f_title (find (\<lambda>r. f_id r = 1) (feedback (snd out))) = Some ''New'' \<and>
      list_all2 (frame 1 (JStr ''New'') JUndefined JUndefined) (feedback two_items) (feedback (snd out)) \<and>
      upvotes (snd out) = upvotes two_items \<and>
      noop = ((400, Error ''No fields to update''), two_items)"
proof -
  have stored: "find (\<lambda>r. f_id r = 1) (feedback two_items) \<noteq> None"
    by (simp add: two_items_eq)
  show ?thesis
    using stored
      PUT_feedback_frame[of "''changeme''" 1 "JStr ''New''" JUndefined JUndefined two_items]
      PUT_feedback_frame[of "''changeme''" 1 JUndefined JUndefined JUndefined two_items]
    by (auto simp: Let_def prod_eq_iff)
qed

section \<open>Listing\<close>

lemma lower_newest: "toLowerCase ''newest'' = ''newest''" "toLowerCase ''upvotes'' = ''upvotes''"
  "toLowerCase ''NEWEST'' = ''newest''"
  by (simp_all add: toLowerCase_def is_upper_def)

lemma sorted_created_desc: "sorted_wrt newer_first (sort_key created_desc_key rows)"
proof -
  have "sorted (map created_desc_key (sort_key created_desc_key rows))"
    by (rule sorted_sort_key)
  then have "sorted_wrt (\<lambda>a b. created_desc_key a \<le> created_desc_key b) (sort_key created_desc_key rows)"
    by (simp add: sorted_map)
  moreover have "\<And>a b. created_desc_key a \<le> created_desc_key b \<Longrightarrow> newer_first a b"
    by (simp add: created_desc_key_def newer_first_def)
  ultimately show ?thesis
    by (rule sorted_wrt_mono_rel[rotated]) simp
qed

lemma sorted_upvotes_desc: "sorted_wrt most_upvoted_first (sort_key upvotes_desc_key rows)"
proof -
  have "sorted (map upvotes_desc_key (sort_key upvotes_desc_key rows))"
    by (rule sorted_sort_key)
  then have "sorted_wrt (\<lambda>a b. upvotes_desc_key a \<le> upvotes_desc_key b) (sort_key upvotes_desc_key rows)"
    by (simp add: sorted_map)
  moreover have "\<And>a b. upvotes_desc_key a \<le> upvotes_desc_key b \<Longrightarrow> most_upvoted_first a b"
    by (auto simp: upvotes_desc_key_def most_upvoted_first_def less_eq_prod_def)
  ultimately show ?thesis
    by (rule sorted_wrt_mono_rel[rotated]) simp
qed

lemma GET_feedback_eq:
  "GET_feedback q s =
     ((200, Feedback_list
        (if (case q of None \<Rightarrow> False | Some v \<Rightarrow> toLowerCase v = ''newest'')
         then sort_key created_desc_key (map (joined s) (feedback s))
         else sort_key upvotes_desc_key (map (joined s) (feedback s)))),
      s\<lparr>executed := executed s @
          [Select_feedback_list
            (if (case q of None \<Rightarrow> False | Some v \<Rightarrow> toLowerCase v = ''newest'')
             then Created_desc else Upvotes_desc_created_desc)]\<rparr>)"
  by (cases q) (auto simp: GET_feedback_def select_feedback_list_def logged_def Let_def lower_newest
      toLowerCase_def)

text \<open>
  C4: \<open>GET /api/feedback\<close> answers 200 with one row for every stored feedback item, each
  with the number of upvote rows and of comment rows that carry its id. With
  \<open>sortBy=newest\<close> the rows are in descending order of creation time, whatever the
  counts; with no \<open>sortBy\<close> or \<open>sortBy=upvotes\<close> they are in descending order of the
  upvote count, and rows of equal count in descending order of creation time.
\<close>

theorem GET_feedback_listing:
  "let out = GET_feedback q s
   in \<exists>rows. fst out = (200, Feedback_list rows) \<and>
        mset rows = mset (map (joined s) (feedback s)) \<and>
        (\<forall>v \<in> set rows. upvote_count v = length (filter (\<lambda>u. u_feedback_id u = f_id (item v)) (upvotes s)) \<and>
                          comment_count v = length (filter (\<lambda>c. c_feedback_id c = f_id (item v)) (comments s))) \<and>
        mset (map item rows) = mset (feedback s) \<and>
        (q = Some ''newest'' \<longrightarrow> sorted_wrt newer_first rows) \<and>
        (q = None \<or> q = Some ''upvotes'' \<longrightarrow> sorted_wrt most_upvoted_first rows)"
proof -
  have "item \<circ> joined s = id"
    by (rule ext) (simp add: joined_def)
  then have items: "image_mset item (image_mset (joined s) (mset (feedback s))) = mset (feedback s)"
    by (simp add: multiset.map_comp)
  show ?thesis
    unfolding Let_def GET_feedback_eq
    by (auto simp: lower_newest sorted_created_desc sorted_upvotes_desc items
        joined_def upvote_count_of_def comment_count_of_def)
qed

theorem GET_feedback_listing_witness:
  "map (\<lambda>v. (f_id (item v), upvote_count v, f_created_at (item v)))
      (case snd (fst (GET_feedback (Some ''newest'') two_items)) of Feedback_list rows \<Rightarrow> rows | _ \<Rightarrow> [])
     = [(2, 0, 9), (1, 1, 7)] \<and>
   map (\<lambda>v. (f_id (item v), upvote_count v, f_created_at (item v)))
      (case snd (fst (GET_feedback None two_items)) of Feedback_list rows \<Rightarrow> rows | _ \<Rightarrow> [])
     = [(1, 1, 7), (2, 0, 9)] \<and>
   (\<exists>rows. fst (GET_feedback (Some ''newest'') two_items) = (200, Feedback_list rows) \<and>
      sorted_wrt newer_first rows) \<and>
   (\<exists>rows. fst (GET_feedback None two_items) = (200, Feedback_list rows) \<and>
      sorted_wrt most_upvoted_first rows)"
proof -
  have 1: "map (\<lambda>v. (f_id (item v), upvote_count v, f_created_at (item v)))
      (case snd (fst (GET_feedback (Some ''newest'') two_items)) of Feedback_list rows \<Rightarrow> rows | _ \<Rightarrow> [])
     = [(2, 0, 9), (1, 1, 7)]"
    by (simp add: GET_feedback_eq lower_newest two_items_eq joined_def upvote_count_of_def
        comment_count_of_def created_desc_key_def)
  have 2: "map (\<lambda>v. (f_id (item v), upvote_count v, f_created_at (item v)))
      (case snd (fst (GET_feedback None two_items)) of Feedback_list rows \<Rightarrow> rows | _ \<Rightarrow> [])
     = [(1, 1, 7), (2, 0, 9)]"
    by (simp add: GET_feedback_eq two_items_eq joined_def upvote_count_of_def
        comment_count_of_def upvotes_desc_key_def less_eq_prod_def)
  show ?thesis
    using 1 2 GET_feedback_listing[of "Some ''newest''" two_items] GET_feedback_listing[of None two_items]
    by (auto simp: Let_def)
qed

section \<open>Comment listing\<close>

lemma GET_comments_eq:
  "n \<noteq> 0 \<Longrightarrow> GET_comments (Num n) s =
     ((200, Comment_list (sort_key c_created_at (filter (\<lambda>c. c_feedback_id c = n) (comments s)))),
      s\<lparr>executed := executed s @ [Select_comments n]\<rparr>)"
  by (simp add: GET_comments_def select_comments_def logged_def)

text \<open>
  C9, as stated, fails: a comment posted to an id that has no feedback row is stored, and
  the listing for that id then holds it. The feedback table is empty and the list is not.
\<close>

theorem GET_comments_orphan_counterexample:
  "feedback (snd (POST_comments (Num 99) (JStr ''a@b.c'') (JStr ''hi'') 5 empty_db)) = [] \<and>
   fst (GET_comments (Num 99) (snd (POST_comments (Num 99) (JStr ''a@b.c'') (JStr ''hi'') 5 empty_db)))
     = (200, Comment_list [\<lparr>c_id = 1, c_feedback_id = 99, c_user_email = ''a@b.c'',
                             c_comment_text = ''hi'', c_created_at = 5\<rparr>]) \<and>
   fst (GET_comments (Num 99) (snd (POST_comments (Num 99) (JStr ''a@b.c'') (JStr ''hi'') 5 empty_db)))
     \<noteq> (200, Comment_list [])"
  by (simp add: POST_comments_valid[OF _ valid_a_b_c] GET_comments_eq empty_db_def next_id_def)

text \<open>
  C9, amended: for a truthy id, \<open>GET /api/feedback/:id/comments\<close> answers 200 with exactly
  the comments whose feedback reference is the id, in ascending order of creation time.
  The list is empty exactly when no comment refers to the id. The only statement is the
  select on the comments table, and the answer is the same whatever the feedback table
  holds: no existence check is made, and an id without a feedback row is no error.
\<close>

theorem GET_comments_exact:
  assumes "n \<noteq> 0"
  shows "let out = GET_comments (Num n) s
         in \<exists>rows. fst out = (200, Comment_list rows) \<and>
              mset rows = mset (filter (\<lambda>c. c_feedback_id c = n) (comments s)) \<and>
              sorted (map c_created_at rows) \<and>
              (rows = []) = (\<forall>c \<in> set (comments s). c_feedback_id c \<noteq> n) \<and>
              fst (GET_comments (Num n) (s\<lparr>feedback := fb\<rparr>)) = fst out \<and>
              executed (snd out) = executed s @ [Select_comments n] \<and>
              feedback (snd out) = feedback s \<and> upvotes (snd out) = upvotes s \<and>
              comments (snd out) = comments s"
proof -
  define rows where "rows = sort_key c_created_at (filter (\<lambda>c. c_feedback_id c = n) (comments s))"
  have m: "mset rows = mset (filter (\<lambda>c. c_feedback_id c = n) (comments s))"
    unfolding rows_def by (rule mset_sort)
  have srt: "sorted (map c_created_at rows)"
    unfolding rows_def by (rule sorted_sort_key)
  have "(rows = []) = (filter (\<lambda>c. c_feedback_id c = n) (comments s) = [])"
    using m by (metis mset_zero_iff)
  then have e: "(rows = []) = (\<forall>c \<in> set (comments s). c_feedback_id c \<noteq> n)"
    by (simp add: filter_empty_conv)
  show ?thesis
    using m srt e unfolding rows_def
    by (simp add: Let_def GET_comments_eq[OF assms])
qed

theorem GET_comments_exact_witness:
  "let s = snd (POST_comments (Num 99) (JStr ''a@b.c'') (JStr ''hi'') 5 empty_db)
   in (\<exists>rows. fst (GET_comments (Num 99) s) = (200, Comment_list rows) \<and>
         mset rows = mset (comments s) \<and> length rows = 1) \<and>
      fst (GET_comments (Num 7) s) = (200, Comment_list [])"
proof -
  define s where "s = snd (POST_comments (Num 99) (JStr ''a@b.c'') (JStr ''hi'') 5 empty_db)"
  have c: "comments s = [\<lparr>c_id = 1, c_feedback_id = 99, c_user_email = ''a@b.c'',
                             c_comment_text = ''hi'', c_created_at = 5\<rparr>]"
    by (simp add: s_def POST_comments_valid[OF _ valid_a_b_c] empty_db_def next_id_def)
  have "(\<exists>rows. fst (GET_comments (Num 99) s) = (200, Comment_list rows) \<and>
         mset rows = mset (comments s) \<and> length rows = 1) \<and>
      fst (GET_comments (Num 7) s) = (200, Comment_list [])"
    using GET_comments_exact[of 99 s "[]"] GET_comments_exact[of 7 s "[]"] c
    by (auto simp: Let_def dest: mset_eq_length)
  then show ?thesis by (simp add: s_def Let_def)
qed

section \<open>Non-empty titles and descriptions\<close>

lemma requireAdmin_cases:
  "requireAdmin secret token next s = ((401, Error ''Unauthorized''), s) \<or>
   requireAdmin secret token next s = next s"
  by (simp add: requireAdmin_def)

lemma POST_feedback_texts: "texts_nonempty s \<Longrightarrow> texts_nonempty (snd (POST_feedback t d e now s))"
  by (cases t; cases d; cases e)
     (auto simp: POST_feedback_def insert_feedback_def select_feedback_by_id_def logged_def Let_def
        texts_nonempty_def)

lemma POST_upvote_feedback: "feedback (snd (POST_upvote i e s)) = feedback s"
  by (cases i; cases e)
     (auto simp: POST_upvote_def insert_upvote_def select_upvote_count_def logged_def Let_def)

lemma POST_comments_feedback: "feedback (snd (POST_comments i e t now s)) = feedback s"
  by (cases i; cases e; cases t)
     (auto simp: POST_comments_def insert_comment_def select_comment_by_id_def logged_def Let_def)

lemma GET_comments_feedback: "feedback (snd (GET_comments i s)) = feedback s"
  by (cases i) (auto simp: GET_comments_def select_comments_def logged_def)

lemma GET_feedback_feedback: "feedback (snd (GET_feedback q s)) = feedback s"
  by (simp add: GET_feedback_eq)

lemma delete_handler_texts:
  "texts_nonempty s \<Longrightarrow> texts_nonempty (snd (delete_feedback_handler i s))"
  by (cases i)
     (auto simp: delete_feedback_handler_def delete_upvotes_def delete_comments_def
        delete_feedback_def logged_def Let_def texts_nonempty_def list_all_iff)

lemma put_feedback_texts:
  assumes "texts_nonempty s" and "t \<noteq> JStr []" and "d \<noteq> JStr []"
  shows "texts_nonempty (snd (put_feedback i t d st s))"
proof (cases i)
  case NaN
  then show ?thesis using assms(1) by (simp add: put_feedback_def)
next
  case (Num n)
  show ?thesis
  proof (cases "n = 0")
    case True
    then show ?thesis using assms(1) Num by (simp add: put_feedback_def)
  next
    case False
    have "\<And>r. f_title r \<noteq> [] \<Longrightarrow> f_title (fold assign (fields_of t d st) r) \<noteq> []"
      using assms(2) by (cases t) (simp_all add: patched_title)
    moreover have "\<And>r. f_description r \<noteq> [] \<Longrightarrow> f_description (fold assign (fields_of t d st) r) \<noteq> []"
      using assms(3) by (cases d) (simp_all add: patched_description)
    ultimately show ?thesis
      using assms(1) unfolding Num put_feedback_outcome[OF False]
      by (auto simp: texts_nonempty_def list_all_iff split: option.splits)
  qed
qed

text \<open>Every request keeps titles and descriptions non-empty, an update that supplies an
  empty string apart.\<close>

lemma handle_texts:
  assumes "texts_nonempty s"
    and "\<And>tok i t d st. req = Put_feedback tok i t d st \<Longrightarrow> t \<noteq> JStr [] \<and> d \<noteq> JStr []"
  shows "texts_nonempty (snd (handle secret now req s))"
proof (cases req)
  case (Put_feedback tok i t d st)
  then have "t \<noteq> JStr []" "d \<noteq> JStr []" using assms(2) by auto
  then show ?thesis
    using assms(1) put_feedback_texts[of s t d i st]
      requireAdmin_cases[of secret tok "put_feedback i t d st" s]
    by (auto simp: Put_feedback PUT_feedback_def)
next
  case (Delete_feedback_req tok i)
  then show ?thesis
    using assms(1) delete_handler_texts[of s i]
      requireAdmin_cases[of secret tok "delete_feedback_handler i" s]
    by (auto simp: DELETE_feedback_def)
next
  case (Get_admin_verify tok)
  then show ?thesis
    using assms(1) requireAdmin_cases[of secret tok "\<lambda>s. ((200, Ok_true), s)" s]
    by (auto simp: GET_admin_verify_def)
next
  case (Post_feedback t d e)
  then show ?thesis using assms(1) by (simp add: POST_feedback_texts)
qed (use assms(1) in \<open>simp_all add: texts_nonempty_def POST_upvote_feedback
      POST_comments_feedback GET_comments_feedback GET_feedback_feedback\<close>)

lemma reachable_one_item: "reachable secret one_item"
  using reachable_step[OF reachable_empty, of secret 7 "Post_feedback (JStr ''Idea'') (JStr ''Text'') (JStr ''a@b.c'')"]
  by (simp add: one_item_def)

text \<open>
  C2 at the failing input: the database after one valid submission is reachable and all its
  titles and descriptions are non-empty; the authorized update of item 1 with the empty
  string as title and as description is answered with 200 and stores both, so a reachable
  state has a feedback item with an empty title and an empty description.
\<close>

theorem PUT_feedback_empty_title:
  "reachable ''changeme'' one_item \<and> texts_nonempty one_item \<and>
   fst (PUT_feedback ''changeme'' (Some ''changeme'') (Num 1) (JStr '''') (JStr '''') JUndefined one_item)
     = (200, Updated_feedback \<lparr>f_id = 1, f_title = '''', f_description = '''',
          f_user_email = ''a@b.c'', f_created_at = 7, f_status = Some ''Open''\<rparr>) \<and>
   feedback (snd (PUT_feedback ''changeme'' (Some ''changeme'') (Num 1) (JStr '''') (JStr '''') JUndefined one_item))
     = [\<lparr>f_id = 1, f_title = '''', f_description = '''',
          f_user_email = ''a@b.c'', f_created_at = 7, f_status = Some ''Open''\<rparr>] \<and>
   reachable ''changeme''
     (snd (PUT_feedback ''changeme'' (Some ''changeme'') (Num 1) (JStr '''') (JStr '''') JUndefined one_item)) \<and>
   \<not> texts_nonempty
     (snd (PUT_feedback ''changeme'' (Some ''changeme'') (Num 1) (JStr '''') (JStr '''') JUndefined one_item))"
proof -
  have r: "reachable ''changeme''
     (snd (PUT_feedback ''changeme'' (Some ''changeme'') (Num 1) (JStr '''') (JStr '''') JUndefined one_item))"
    using reachable_step[OF reachable_one_item, of "''changeme''" 0
        "Put_feedback (Some ''changeme'') (Num 1) (JStr '''') (JStr '''') JUndefined"]
    by simp
  have e: "PUT_feedback ''changeme'' (Some ''changeme'') (Num 1) (JStr '''') (JStr '''') JUndefined one_item =
    ((200, Updated_feedback \<lparr>f_id = 1, f_title = '''', f_description = '''',
          f_user_email = ''a@b.c'', f_created_at = 7, f_status = Some ''Open''\<rparr>),
     one_item\<lparr>feedback := [\<lparr>f_id = 1, f_title = '''', f_description = '''',
          f_user_email = ''a@b.c'', f_created_at = 7, f_status = Some ''Open''\<rparr>],
        executed := executed one_item @
          [Update_feedback [(Title, JStr ''''), (Description, JStr '''')] 1, Select_feedback_by_id 1]\<rparr>)"
    by (simp add: PUT_feedback_authorized put_feedback_outcome one_item_eq fields_of_def)
  show ?thesis
    using r reachable_one_item[of "''changeme''"]
    by (simp add: e texts_nonempty_def) (simp add: one_item_eq)
qed

end
